theory Spec2Isabelle
  imports Complex_Main
begin

unbundle bit_operations_syntax

section \<open>Dynon D120/D180 EMS input: checksum validation and fixed-width decoding\<close>

text \<open>
  The development embeds the two pure functions of \<^verbatim>\<open>lib/inputs/serial_d120.py\<close>:
  \<^verbatim>\<open>_ems_checksum_ok\<close> (the frame validator) and \<^verbatim>\<open>_parse_ems_line\<close> (the frame
  decoder). A Python \<^verbatim>\<open>bytes\<close> object is a list of 8-bit characters, whose numeric value
  is \<open>of_char\<close>. The decoder's argument is the string that \<^verbatim>\<open>readMessage\<close> obtains with
  \<^verbatim>\<open>raw.decode("ascii", errors="ignore")\<close>, so it holds code points below 128 only; it is
  a list of characters as well. Exceptions are values of the type \<open>exn\<close>.
\<close>

subsection \<open>Python's built-in conversion from text to integer\<close>

datatype exn = ValueError | UnicodeDecodeError

type_synonym bytes = "char list"

text \<open>The ASCII white space that \<^verbatim>\<open>int()\<close> skips: TAB, LF, VT, FF, CR and the blank.\<close>

definition py_isspace :: "char \<Rightarrow> bool" where
  "py_isspace c = (let k = (of_char c :: nat) in (9 \<le> k \<and> k \<le> 13) \<or> k = 32)"

text \<open>The value of a character as a digit; 37 stands for "not a digit in any base".\<close>

definition digit_value :: "char \<Rightarrow> nat" where
  "digit_value c =
     (let k = (of_char c :: nat) in
      if 48 \<le> k \<and> k \<le> 57 then k - 48
      else if 97 \<le> k \<and> k \<le> 122 then k - 87
      else if 65 \<le> k \<and> k \<le> 90 then k - 55
      else 37)"

definition digit_or_underscore :: "nat \<Rightarrow> char \<Rightarrow> bool" where
  "digit_or_underscore base c = (digit_value c < base \<or> c = CHR ''_'')"

fun double_underscore :: "string \<Rightarrow> bool" where
  "double_underscore (a # b # cs) =
     ((a = CHR ''_'' \<and> b = CHR ''_'') \<or> double_underscore (b # cs))"
| "double_underscore cs = False"

text \<open>The digits of a numeral, most significant first, underscores skipped.\<close>

definition digits_value :: "nat \<Rightarrow> string \<Rightarrow> nat" where
  "digits_value base ds =
     foldl (\<lambda>acc c. if c = CHR ''_'' then acc else acc * base + digit_value c) 0 ds"

text \<open>The radix prefix \<^verbatim>\<open>0x\<close> or \<^verbatim>\<open>0X\<close> that base 16 permits, with one underscore after it.\<close>

definition strip_radix_prefix :: "nat \<Rightarrow> string \<Rightarrow> string" where
  "strip_radix_prefix base cs =
     (case cs of
        a # b # rest \<Rightarrow>
          if base = 16 \<and> a = CHR ''0'' \<and> (b = CHR ''x'' \<or> b = CHR ''X'')
          then (case rest of c # rest' \<Rightarrow> if c = CHR ''_'' then rest' else rest | [] \<Rightarrow> rest)
          else cs
      | _ \<Rightarrow> cs)"

text \<open>
  The part of a numeral after its sign: for base 16 an optional radix prefix, then digits
  of the base with single underscores between them, then white space up to the end. An
  empty digit sequence, an underscore that is not between two digits and any other
  character raise \<^verbatim>\<open>ValueError\<close>.
\<close>

definition py_digits :: "nat \<Rightarrow> string \<Rightarrow> exn + nat" where
  "py_digits base cs =
     (let s3 = strip_radix_prefix base cs;
          ds = takeWhile (digit_or_underscore base) s3;
          rest = dropWhile (digit_or_underscore base) s3
      in if ds = [] \<or> hd ds = CHR ''_'' \<or> last ds = CHR ''_'' \<or> double_underscore ds
            \<or> dropWhile py_isspace rest \<noteq> []
         then Inl ValueError
         else Inr (digits_value base ds))"

definition signed :: "bool \<Rightarrow> exn + nat \<Rightarrow> exn + int" where
  "signed neg r = (case r of Inl e \<Rightarrow> Inl e | Inr n \<Rightarrow> Inr (if neg then - int n else int n))"

text \<open>
  \<^verbatim>\<open>int(v, base)\<close> on ASCII text, for base 10 and base 16: leading white space is
  skipped, one sign \<^verbatim>\<open>+\<close> or \<^verbatim>\<open>-\<close> may follow, then the numeral. The texts that
  this program converts hold at most four characters.
\<close>

definition py_int :: "nat \<Rightarrow> string \<Rightarrow> exn + int" where
  "py_int base v =
     (case dropWhile py_isspace v of
        [] \<Rightarrow> signed False (py_digits base [])
      | c # cs \<Rightarrow>
          if c = CHR ''+'' then signed False (py_digits base cs)
          else if c = CHR ''-'' then signed True (py_digits base cs)
          else signed False (py_digits base (c # cs)))"

subsection \<open>The frame validator\<close>

text \<open>\<^verbatim>\<open>raw.rstrip(b"\r\n")\<close>: every trailing CR and LF is removed.\<close>

definition is_crlf :: "char \<Rightarrow> bool" where
  "is_crlf c = (c = CHR 0x0D \<or> c = CHR 0x0A)"

definition rstrip :: "bytes \<Rightarrow> bytes" where
  "rstrip raw = rev (dropWhile is_crlf (rev raw))"

text \<open>\<^verbatim>\<open>.decode("ascii")\<close> raises on a byte above 127.\<close>

definition decode_ascii :: "bytes \<Rightarrow> exn + string" where
  "decode_ascii bs =
     (if list_all (\<lambda>b. (of_char b :: nat) < 128) bs then Inr bs else Inl UnicodeDecodeError)"

definition sum_bytes :: "bytes \<Rightarrow> int" where
  "sum_bytes bs = (\<Sum>b\<leftarrow>bs. int (of_char b))"

text \<open>The body of the \<^verbatim>\<open>try\<close> block of \<^verbatim>\<open>_ems_checksum_ok\<close>.\<close>

definition checksum_try :: "bytes \<Rightarrow> exn + bool" where
  "checksum_try raw =
     (let body = rstrip raw in
      if length body < 4 then Inr False
      else
        (case decode_ascii (drop (length body - 2) body) of
           Inl e \<Rightarrow> Inl e
         | Inr chk_hex \<Rightarrow>
             (case py_int 16 chk_hex of
                Inl e \<Rightarrow> Inl e
              | Inr chk_val \<Rightarrow>
                  (let payload = take (length body - 2) body;
                       total = (sum_bytes payload + chk_val) AND 0xFF
                   in Inr (total = 0)))))"

text \<open>\<^verbatim>\<open>except Exception: return False\<close>.\<close>

definition ems_checksum_ok :: "bytes \<Rightarrow> bool" where
  "ems_checksum_ok raw = (case checksum_try raw of Inl e \<Rightarrow> False | Inr b \<Rightarrow> b)"

subsection \<open>The frame decoder\<close>

text \<open>
  The values of the dictionary that the decoder returns. A Python float is modelled by the
  real quotient it approximates; no statement below depends on the rounding.
\<close>

datatype pyval = PyInt int | PyFloat real | PyList "int list"

type_synonym pydict = "string \<rightharpoonup> pyval"

text \<open>
  The closure \<^verbatim>\<open>take(n)\<close> reads \<^verbatim>\<open>s[i:i+n]\<close> and advances the cursor \<open>i\<close>; a slice
  beyond the end of the string is short or empty and never raises. A computation of the
  \<^verbatim>\<open>try\<close> block takes the cursor and returns an exception, or a value and the new cursor.
\<close>

type_synonym 'a parser = "nat \<Rightarrow> exn + ('a \<times> nat)"

definition take_cur :: "string \<Rightarrow> nat \<Rightarrow> string parser" where
  "take_cur s n i = Inr (take n (drop i s), i + n)"

definition ret :: "'a \<Rightarrow> 'a parser" where
  "ret v i = Inr (v, i)"

definition and_then :: "'a parser \<Rightarrow> ('a \<Rightarrow> 'b parser) \<Rightarrow> 'b parser" where
  "and_then m f i = (case m i of Inl e \<Rightarrow> Inl e | Inr (v, i') \<Rightarrow> f v i')"

text \<open>\<^verbatim>\<open>int(v)\<close> inside the \<^verbatim>\<open>try\<close> block: the cursor is left as it is.\<close>

definition int_of :: "string \<Rightarrow> int parser" where
  "int_of v i = (case py_int 10 v of Inl e \<Rightarrow> Inl e | Inr k \<Rightarrow> Inr (k, i))"

text \<open>\<^verbatim>\<open>int(take(n))\<close>.\<close>

definition int_take :: "string \<Rightarrow> nat \<Rightarrow> int parser" where
  "int_take s n = and_then (take_cur s n) int_of"

text \<open>\<^verbatim>\<open>[int(take(n)) for _ in range(k)]\<close>.\<close>

fun int_take_list :: "string \<Rightarrow> nat \<Rightarrow> nat \<Rightarrow> int list parser" where
  "int_take_list s n 0 = ret []"
| "int_take_list s n (Suc k) =
     and_then (int_take s n) (\<lambda>v. and_then (int_take_list s n k) (\<lambda>vs. ret (v # vs)))"

text \<open>The body of the \<^verbatim>\<open>try\<close> block of \<^verbatim>\<open>_parse_ems_line\<close>, started with the cursor at 0.\<close>

definition parse_try :: "string \<Rightarrow> pydict parser" where
  "parse_try s =
     and_then (int_take s 2) (\<lambda>z_h.
     and_then (int_take s 2) (\<lambda>z_m.
     and_then (int_take s 2) (\<lambda>z_s.
     and_then (int_take s 2) (\<lambda>frac.
     and_then (int_take s 4) (\<lambda>map_raw.
     and_then (take_cur s 3) (\<lambda>oil_temp_str.
     and_then (int_of oil_temp_str) (\<lambda>oil_temp_f.
     and_then (int_take s 3) (\<lambda>oil_psi.
     and_then (int_take s 3) (\<lambda>fuel_psi_tenths.
     and_then (int_take s 3) (\<lambda>volts_tenths.
     and_then (take_cur s 3) (\<lambda>amps_str.
     and_then (int_of amps_str) (\<lambda>amps_a.
     and_then (int_take s 3) (\<lambda>rpm_div10.
     and_then (int_take s 3) (\<lambda>ff_tenths.
     and_then (int_take s 4) (\<lambda>fuel_remain_tenths.
     and_then (int_take s 3) (\<lambda>fuel_l1_tenths.
     and_then (int_take s 3) (\<lambda>fuel_l2_tenths.
     and_then (take_cur s 8) (\<lambda>gp1.
     and_then (take_cur s 8) (\<lambda>gp2.
     and_then (take_cur s 8) (\<lambda>gp3.
     and_then (take_cur s 4) (\<lambda>gp_tc.
     and_then (int_take_list s 4 6) (\<lambda>egt.
     and_then (int_take_list s 3 6) (\<lambda>cht.
     and_then (int_take s 1) (\<lambda>contact1.
     and_then (int_take s 1) (\<lambda>contact2.
     and_then (take_cur s 2) (\<lambda>prod_id.
     (let map_inhg = real_of_int map_raw / 100;
          fuel_psi = real_of_int fuel_psi_tenths / 10;
          volts_v = real_of_int volts_tenths / 10;
          rpm = rpm_div10 * 10;
          ff_gph = real_of_int ff_tenths / 10;
          fuel_rem_g = real_of_int fuel_remain_tenths / 10;
          fuel_l1_g = real_of_int fuel_l1_tenths / 10;
          fuel_l2_g = real_of_int fuel_l2_tenths / 10
      in ret [''map_inhg'' \<mapsto> PyFloat map_inhg,
              ''oil_temp_f'' \<mapsto> PyInt oil_temp_f,
              ''oil_psi'' \<mapsto> PyInt oil_psi,
              ''fuel_psi'' \<mapsto> PyFloat fuel_psi,
              ''volts_v'' \<mapsto> PyFloat volts_v,
              ''amps_a'' \<mapsto> PyInt amps_a,
              ''rpm'' \<mapsto> PyInt rpm,
              ''ff_gph'' \<mapsto> PyFloat ff_gph,
              ''fuel_remain_g'' \<mapsto> PyFloat fuel_rem_g,
              ''fuel_l1_g'' \<mapsto> PyFloat fuel_l1_g,
              ''fuel_l2_g'' \<mapsto> PyFloat fuel_l2_g,
              ''egt_f'' \<mapsto> PyList egt,
              ''cht_f'' \<mapsto> PyList cht,
              ''contact1'' \<mapsto> PyInt contact1,
              ''contact2'' \<mapsto> PyInt contact2])
     ))))))))))))))))))))))))))"

text \<open>\<^verbatim>\<open>except Exception: return None\<close>.\<close>

definition parse_ems_line :: "string \<Rightarrow> pydict option" where
  "parse_ems_line s = (case parse_try s 0 of Inl e \<Rightarrow> None | Inr (d, i) \<Rightarrow> Some d)"

subsection \<open>Notions of the specification\<close>

text \<open>The checksum field and the payload of a frame body: its last two bytes and the rest.\<close>

definition checksum_field :: "bytes \<Rightarrow> bytes" where
  "checksum_field body = drop (length body - 2) body"

definition payload_of :: "bytes \<Rightarrow> bytes" where
  "payload_of body = take (length body - 2) body"

text \<open>Hexadecimal and decimal digit characters.\<close>

definition is_hex :: "char \<Rightarrow> bool" where
  "is_hex c =
     (let k = (of_char c :: nat) in
      (48 \<le> k \<and> k \<le> 57) \<or> (97 \<le> k \<and> k \<le> 102) \<or> (65 \<le> k \<and> k \<le> 70))"

definition is_digit :: "char \<Rightarrow> bool" where
  "is_digit c = (let k = (of_char c :: nat) in 48 \<le> k \<and> k \<le> 57)"

text \<open>A hexadecimal pair: exactly two hexadecimal digits.\<close>

definition is_hex_pair :: "string \<Rightarrow> bool" where
  "is_hex_pair hx = (length hx = 2 \<and> list_all is_hex hx)"

text \<open>
  The two-character hexadecimal rendering of a checksum value below 256, in upper or in
  lower case.
\<close>

definition hex_char :: "bool \<Rightarrow> nat \<Rightarrow> char" where
  "hex_char upper d =
     (if d < 10 then char_of (48 + d) else if upper then char_of (55 + d) else char_of (87 + d))"

definition hex2 :: "bool \<Rightarrow> nat \<Rightarrow> string" where
  "hex2 upper c = [hex_char upper (c div 16), hex_char upper (c mod 16)]"

text \<open>
  The two-character texts that \<^verbatim>\<open>int(v, 16)\<close> converts: two hexadecimal digits, one
  hexadecimal digit after a sign or a white space, or one hexadecimal digit before a white
  space.
\<close>

definition accepted_pair :: "string \<Rightarrow> bool" where
  "accepted_pair hx =
     (case hx of
        [a, b] \<Rightarrow> (is_hex a \<and> is_hex b)
                \<or> ((a = CHR ''+'' \<or> a = CHR ''-'' \<or> py_isspace a) \<and> is_hex b)
                \<or> (is_hex a \<and> py_isspace b)
      | _ \<Rightarrow> False)"

text \<open>
  The slice of a line at an offset, the offsets and widths of the 29 slices that the decoder
  converts to integers, and the dictionary built from them. The text converted at a slice
  is \<open>int_val\<close> when it \<open>converts\<close>.
\<close>

definition fld :: "string \<Rightarrow> nat \<Rightarrow> nat \<Rightarrow> string" where
  "fld s off n = take n (drop off s)"

definition int_fields :: "(nat \<times> nat) list" where
  "int_fields =
     [(0, 2), (2, 2), (4, 2), (6, 2), (8, 4), (12, 3), (15, 3), (18, 3), (21, 3), (24, 3),
      (27, 3), (30, 3), (33, 4), (37, 3), (40, 3),
      (71, 4), (75, 4), (79, 4), (83, 4), (87, 4), (91, 4),
      (95, 3), (98, 3), (101, 3), (104, 3), (107, 3), (110, 3),
      (113, 1), (114, 1)]"

definition int_val :: "string \<Rightarrow> int" where
  "int_val v = (case py_int 10 v of Inr k \<Rightarrow> k | Inl e \<Rightarrow> 0)"

definition converts :: "string \<Rightarrow> bool" where
  "converts v = (case py_int 10 v of Inr k \<Rightarrow> True | Inl e \<Rightarrow> False)"

definition int_at :: "string \<Rightarrow> nat \<Rightarrow> nat \<Rightarrow> int" where
  "int_at s off n = int_val (fld s off n)"

definition layout_dict :: "string \<Rightarrow> pydict" where
  "layout_dict s =
     [''map_inhg'' \<mapsto> PyFloat (real_of_int (int_at s 8 4) / 100),
      ''oil_temp_f'' \<mapsto> PyInt (int_at s 12 3),
      ''oil_psi'' \<mapsto> PyInt (int_at s 15 3),
      ''fuel_psi'' \<mapsto> PyFloat (real_of_int (int_at s 18 3) / 10),
      ''volts_v'' \<mapsto> PyFloat (real_of_int (int_at s 21 3) / 10),
      ''amps_a'' \<mapsto> PyInt (int_at s 24 3),
      ''rpm'' \<mapsto> PyInt (int_at s 27 3 * 10),
      ''ff_gph'' \<mapsto> PyFloat (real_of_int (int_at s 30 3) / 10),
      ''fuel_remain_g'' \<mapsto> PyFloat (real_of_int (int_at s 33 4) / 10),
      ''fuel_l1_g'' \<mapsto> PyFloat (real_of_int (int_at s 37 3) / 10),
      ''fuel_l2_g'' \<mapsto> PyFloat (real_of_int (int_at s 40 3) / 10),
      ''egt_f'' \<mapsto> PyList [int_at s 71 4, int_at s 75 4, int_at s 79 4,
                             int_at s 83 4, int_at s 87 4, int_at s 91 4],
      ''cht_f'' \<mapsto> PyList [int_at s 95 3, int_at s 98 3, int_at s 101 3,
                             int_at s 104 3, int_at s 107 3, int_at s 110 3],
      ''contact1'' \<mapsto> PyInt (int_at s 113 1),
      ''contact2'' \<mapsto> PyInt (int_at s 114 1)]"

text \<open>The widths of the field table, in order; the decoder converts the first 115 characters.\<close>

definition field_widths :: "nat list" where
  "field_widths =
     [2, 2, 2, 2, 4, 3, 3, 3, 3, 3, 3, 3, 4, 3, 3, 8, 8, 8, 4,
      4, 4, 4, 4, 4, 4, 3, 3, 3, 3, 3, 3, 1, 1, 2]"

definition frame_width :: nat where
  "frame_width = sum_list field_widths"

text \<open>A complete record: the fifteen keys, each with a value of its kind.\<close>

definition float_keys :: "string list" where
  "float_keys =
     [''map_inhg'', ''fuel_psi'', ''volts_v'', ''ff_gph'', ''fuel_remain_g'', ''fuel_l1_g'',
      ''fuel_l2_g'']"

definition int_keys :: "string list" where
  "int_keys = [''oil_temp_f'', ''oil_psi'', ''amps_a'', ''rpm'', ''contact1'', ''contact2'']"

definition list_keys :: "string list" where
  "list_keys = [''egt_f'', ''cht_f'']"

definition complete_record :: "pydict \<Rightarrow> bool" where
  "complete_record d =
     (dom d = set (float_keys @ int_keys @ list_keys)
      \<and> list_all (\<lambda>k. case d k of Some (PyFloat x) \<Rightarrow> True | _ \<Rightarrow> False) float_keys
      \<and> list_all (\<lambda>k. case d k of Some (PyInt n) \<Rightarrow> True | _ \<Rightarrow> False) int_keys
      \<and> list_all (\<lambda>k. case d k of Some (PyList xs) \<Rightarrow> length xs = 6 | _ \<Rightarrow> False) list_keys)"

text \<open>
  The form of a numeral that the decimal conversion reads: optional leading white space, at
  most one sign directly before the first digit, decimal digits with single underscores
  only between two digits, optional trailing white space. \<open>after_digit\<close> reads what may
  follow a digit.
\<close>

fun after_digit :: "string \<Rightarrow> bool" where
  "after_digit [] = True"
| "after_digit (c # cs) =
     (if is_digit c then after_digit cs
      else if c = CHR ''_'' then (case cs of [] \<Rightarrow> False | d # ds \<Rightarrow> is_digit d \<and> after_digit ds)
      else if py_isspace c then list_all py_isspace cs
      else False)"

definition unsigned_numeral :: "string \<Rightarrow> bool" where
  "unsigned_numeral v = (case v of [] \<Rightarrow> False | c # cs \<Rightarrow> is_digit c \<and> after_digit cs)"

definition int_text :: "string \<Rightarrow> bool" where
  "int_text v =
     (case dropWhile py_isspace v of
        [] \<Rightarrow> False
      | c # cs \<Rightarrow>
          if c = CHR ''+'' \<or> c = CHR ''-'' then unsigned_numeral cs
          else unsigned_numeral (c # cs))"

definition ascii_text :: "string \<Rightarrow> bool" where
  "ascii_text s = list_all (\<lambda>c. (of_char c :: nat) < 128) s"

text \<open>
  A recorded frame: time 12:34:56, manifold pressure 29.50 inHg, oil temperature -5 F,
  RPM field 250; its bytes sum to 5856, so that its checksum byte is 0x20.
\<close>

definition sample_payload :: string where
  "sample_payload =
     ''123456002950-05045055138012250085031215016200000000000000000000000000001250126012701280129013003503553603653703750102''"

definition sample_frame :: bytes where
  "sample_frame = sample_payload @ ''20'' @ [CHR 0x0D, CHR 0x0A]"

text \<open>The sample payload with the oil pressure field \<open>045\<close> replaced by \<open>+45\<close>.\<close>

definition plus_payload :: string where
  "plus_payload =
     ''123456002950-05+45055138012250085031215016200000000000000000000000000001250126012701280129013003503553603653703750102''"

section \<open>Properties of the frame validator\<close>

subsection \<open>Bytes, masks and stripping\<close>

lemma and_255: "(x::int) AND 0xFF = x mod 256"
proof -
  have "x AND mask 8 = take_bit 8 x" by (simp add: take_bit_eq_mask)
  then show ?thesis by (simp add: take_bit_eq_mod mask_eq_exp_minus_1)
qed

lemma rstrip_append:
  assumes "xs = [] \<or> \<not> is_crlf (last xs)" "list_all is_crlf t"
  shows "rstrip (xs @ t) = xs"
proof -
  have "dropWhile is_crlf (rev t @ rev xs) = dropWhile is_crlf (rev xs)"
    using assms(2) by (intro dropWhile_append2) (simp add: list_all_iff)
  moreover have "dropWhile is_crlf (rev xs) = rev xs"
    using assms(1) by (cases "rev xs") (auto simp: hd_rev[symmetric])
  ultimately show ?thesis by (simp add: rstrip_def)
qed

lemma rstrip_decompose:
  "\<exists>t. raw = rstrip raw @ t \<and> list_all is_crlf t \<and>
       (rstrip raw = [] \<or> \<not> is_crlf (last (rstrip raw)))"
proof -
  let ?t = "rev (takeWhile is_crlf (rev raw))"
  have "rev (takeWhile is_crlf (rev raw) @ dropWhile is_crlf (rev raw)) = rev (rev raw)"
    by (simp only: takeWhile_dropWhile_id)
  then have a: "raw = rstrip raw @ ?t" by (simp add: rstrip_def del: takeWhile_dropWhile_id)
  have b: "list_all is_crlf ?t" by (simp add: list_all_iff) (meson set_takeWhileD)
  have c: "rstrip raw = [] \<or> \<not> is_crlf (last (rstrip raw))"
  proof (cases "dropWhile is_crlf (rev raw) = []")
    case True
    then show ?thesis by (simp add: rstrip_def)
  next
    case False
    then have "\<not> is_crlf (hd (dropWhile is_crlf (rev raw)))" by (rule hd_dropWhile)
    then show ?thesis by (simp add: rstrip_def last_rev)
  qed
  from a b c show ?thesis by blast
qed

lemma sum_bytes_update:
  "j < length p \<Longrightarrow>
   sum_bytes (p[j := b]) = sum_bytes p - int (of_char (p ! j)) + int (of_char b)"
  unfolding sum_bytes_def
proof (induction p arbitrary: j)
  case Nil
  then show ?case by simp
next
  case (Cons a p)
  then show ?case by (cases j) auto
qed

lemma byte_diff_mod:
  assumes "(s + v) mod 256 = (0::int)" "(s - x + y + v) mod 256 = 0"
    "0 \<le> x" "x < 256" "0 \<le> y" "y < 256"
  shows "x = y"
proof -
  from assms(1,2) have "256 dvd (s + v)" "256 dvd (s - x + y + v)"
    by (simp_all add: mod_eq_0_iff_dvd)
  then have "256 dvd ((s - x + y + v) - (s + v))" by (rule dvd_diff[rotated])
  then have "256 dvd (y - x)" by (simp add: algebra_simps)
  then obtain k where k: "y - x = 256 * k" by (auto simp: dvd_def)
  with assms(3-6) have "k = 0" by arith
  with k show ?thesis by simp
qed

subsection \<open>Character classes and the conversion of short texts\<close>

lemma is_hex_digit_value: "digit_value c < 16 \<longleftrightarrow> is_hex c"
  by (auto simp: is_hex_def digit_value_def Let_def)

lemma is_digit_digit_value: "digit_value c < 10 \<longleftrightarrow> is_digit c"
  by (auto simp: is_digit_def digit_value_def Let_def)

lemma special_chars:
  "\<not> py_isspace (CHR ''+'')" "\<not> py_isspace (CHR ''-'')" "\<not> py_isspace (CHR ''_'')"
  "\<not> is_hex (CHR ''+'')" "\<not> is_hex (CHR ''-'')" "\<not> is_hex (CHR ''_'')"
  "\<not> is_hex (CHR ''x'')" "\<not> is_hex (CHR ''X'')" "is_hex (CHR ''0'')"
  "\<not> is_digit (CHR ''+'')" "\<not> is_digit (CHR ''-'')" "\<not> is_digit (CHR ''_'')"
  by (simp_all add: py_isspace_def is_hex_def is_digit_def)

lemma space_not_hex: "py_isspace c \<Longrightarrow> \<not> is_hex c"
  by (auto simp: py_isspace_def is_hex_def Let_def)

lemma is_hex_not_crlf: "is_hex h \<Longrightarrow> \<not> is_crlf h"
  by (auto simp: is_hex_def is_crlf_def Let_def)

lemma is_hex_ascii: "is_hex h \<Longrightarrow> (of_char h :: nat) < 128"
  by (auto simp: is_hex_def Let_def)

lemma py_digits_Nil: "py_digits base [] = Inl ValueError"
  by (simp add: py_digits_def strip_radix_prefix_def)

lemma py_int_Nil: "py_int base [] = Inl ValueError"
  by (simp add: py_int_def py_digits_Nil signed_def)

lemma py_int_exn: "py_int base v = Inl e \<Longrightarrow> e = ValueError"
  by (cases e)
    (auto simp: py_int_def signed_def py_digits_def Let_def
      split: list.splits if_splits sum.splits)

lemma dou16: "digit_or_underscore 16 c \<longleftrightarrow> is_hex c \<or> c = CHR ''_''"
  by (simp add: digit_or_underscore_def is_hex_digit_value)

lemma dou10: "digit_or_underscore 10 c \<longleftrightarrow> is_digit c \<or> c = CHR ''_''"
  by (simp add: digit_or_underscore_def is_digit_digit_value)

lemma py_digits16_one:
  "py_digits 16 [b] = (if is_hex b then Inr (digit_value b) else Inl ValueError)"
proof (cases "is_hex b")
  case True
  then have "b \<noteq> CHR ''_''" using special_chars by auto
  with True show ?thesis
    by (simp add: py_digits_def strip_radix_prefix_def dou16 digits_value_def)
next
  case False
  then show ?thesis
    by (cases "b = CHR ''_''") (simp_all add: py_digits_def strip_radix_prefix_def dou16)
qed

lemma py_digits16_two:
  "py_digits 16 [a, b] =
     (if is_hex a \<and> is_hex b then Inr (16 * digit_value a + digit_value b)
      else if is_hex a \<and> py_isspace b then Inr (digit_value a)
      else Inl ValueError)"
proof (cases "a = CHR ''0'' \<and> (b = CHR ''x'' \<or> b = CHR ''X'')")
  case True
  then have "\<not> is_hex b" "\<not> py_isspace b"
    using special_chars by (auto simp: py_isspace_def)
  with True show ?thesis
    by (auto simp add: py_digits_def strip_radix_prefix_def)
next
  case False
  then have s: "strip_radix_prefix 16 [a, b] = [a, b]"
    by (auto simp: strip_radix_prefix_def)
  show ?thesis
  proof (cases "is_hex a")
    case ha: True
    then have ua: "a \<noteq> CHR ''_''" using special_chars by auto
    show ?thesis
    proof (cases "is_hex b")
      case True
      then have "b \<noteq> CHR ''_''" using special_chars by auto
      with True ha ua show ?thesis
        by (simp add: py_digits_def s dou16 digits_value_def)
    next
      case hb: False
      show ?thesis
      proof (cases "b = CHR ''_''")
        case True
        with ha ua hb s show ?thesis
          using special_chars by (simp add: py_digits_def dou16)
      next
        case False
        with ha ua hb show ?thesis
          by (simp add: py_digits_def s dou16 digits_value_def)
      qed
    qed
  next
    case False
    with s show ?thesis
      by (cases "a = CHR ''_''") (simp_all add: py_digits_def dou16)
  qed
qed

lemma py_int16_pair: "py_int 16 [a, b] = Inl ValueError \<longleftrightarrow> \<not> accepted_pair [a, b]"
proof (cases "py_isspace a")
  case sa: True
  then have na: "\<not> is_hex a" by (rule space_not_hex)
  show ?thesis
  proof (cases "py_isspace b")
    case True
    then have "\<not> is_hex b" by (rule space_not_hex)
    with sa na True show ?thesis
      by (simp add: py_int_def accepted_pair_def py_digits_Nil signed_def)
  next
    case False
    with sa na show ?thesis
      using special_chars
      by (auto simp add: py_int_def accepted_pair_def py_digits_Nil py_digits16_one signed_def)
  qed
next
  case nsa: False
  show ?thesis
  proof (cases "a = CHR ''+'' \<or> a = CHR ''-''")
    case True
    with nsa show ?thesis
      using special_chars
      by (auto simp add: py_int_def accepted_pair_def py_digits16_one signed_def)
  next
    case False
    with nsa show ?thesis
      by (auto simp add: py_int_def accepted_pair_def py_digits16_two signed_def)
  qed
qed

lemma py_int_hex_pair:
  assumes "is_hex a" "is_hex b"
  shows "py_int 16 [a, b] = Inr (int (16 * digit_value a + digit_value b))"
proof -
  from assms(1) have "\<not> py_isspace a" "a \<noteq> CHR ''+''" "a \<noteq> CHR ''-''"
    using space_not_hex special_chars by auto
  with assms show ?thesis
    by (simp add: py_int_def py_digits16_two signed_def)
qed

lemma hex_char_props: "d < 16 \<Longrightarrow> is_hex (hex_char u d) \<and> digit_value (hex_char u d) = d"
  by (auto simp: hex_char_def is_hex_def digit_value_def Let_def)

lemma py_int_hex2: "c < 256 \<Longrightarrow> py_int 16 (hex2 u c) = Inr (int c)"
proof -
  assume c: "c < 256"
  then have d: "c div 16 < 16" "c mod 16 < 16" by auto
  show ?thesis
    unfolding hex2_def
    using hex_char_props[OF d(1), of u] hex_char_props[OF d(2), of u]
    by (simp add: py_int_hex_pair)
qed

lemma hex2_ascii: "c < 256 \<Longrightarrow> decode_ascii (hex2 u c) = Inr (hex2 u c)"
proof -
  assume "c < 256"
  then have d: "c div 16 < 16" "c mod 16 < 16" by auto
  show ?thesis
    using hex_char_props[OF d(1), of u] hex_char_props[OF d(2), of u]
    by (simp add: decode_ascii_def hex2_def is_hex_ascii)
qed

subsection \<open>When the validator accepts\<close>

lemma checksum_ok_iff:
  "ems_checksum_ok raw \<longleftrightarrow>
     4 \<le> length (rstrip raw) \<and>
     (\<exists>hx v. decode_ascii (checksum_field (rstrip raw)) = Inr hx \<and> py_int 16 hx = Inr v \<and>
        (sum_bytes (payload_of (rstrip raw)) + v) mod 256 = 0)"
  by (auto simp: ems_checksum_ok_def checksum_try_def Let_def and_255 checksum_field_def
      payload_of_def split: sum.splits)

lemma rstrip_rendered:
  assumes "c < 256" "list_all is_crlf t"
  shows "rstrip (p @ hex2 u c @ t) = p @ hex2 u c"
proof -
  from assms(1) have d: "c mod 16 < 16" by auto
  have "\<not> is_crlf (last (p @ hex2 u c))"
    using hex_char_props[OF d, of u] by (simp add: hex2_def is_hex_not_crlf)
  then show ?thesis
    using rstrip_append[of "p @ hex2 u c" t] assms(2) by simp
qed

lemma checksum_ok_rendered:
  assumes "2 \<le> length p" "c < 256" "(sum_bytes p + int c) mod 256 = 0" "list_all is_crlf t"
  shows "ems_checksum_ok (p @ hex2 u c @ t)"
proof -
  have l: "length (hex2 u c) = 2" by (simp add: hex2_def)
  show ?thesis
    unfolding checksum_ok_iff rstrip_rendered[OF assms(2,4)]
    using assms(1,3) l
    by (simp add: checksum_field_def payload_of_def hex2_ascii[OF assms(2)]
        py_int_hex2[OF assms(2)])
qed

lemma sample_frame_ok: "ems_checksum_ok sample_frame"
  by (simp add: sample_frame_def sample_payload_def ems_checksum_ok_def checksum_try_def
      rstrip_def is_crlf_def decode_ascii_def sum_bytes_def py_int_hex_pair is_hex_def
      digit_value_def and_255)

section \<open>Claims about the frame validator\<close>

text \<open>
  C1, counterexample. The claim as stated covers every payload. The empty payload with the
  checksum value 0 satisfies its condition, the sum being 0, and its frame is the
  two-character rendering alone; the validator rejects it, because the body holds fewer than
  four bytes.
\<close>

theorem rendered_checksum_short_payload_rejected:
  "(sum_bytes [] + int 0) mod 256 = 0 \<and> (0::nat) < 256 \<and> \<not> ems_checksum_ok ([] @ hex2 True 0)"
  by (simp add: sum_bytes_def ems_checksum_ok_def checksum_try_def rstrip_def hex2_def
      hex_char_def is_crlf_def)

text \<open>
  C1, amended. For every payload of at least two bytes and every checksum value below 256
  such that the sum of the payload bytes plus the checksum value is 0 modulo 256, the
  validator accepts the payload followed by the two-character hexadecimal rendering of the
  checksum value, in either letter case.
\<close>

theorem rendered_checksum_accepted:
  assumes "2 \<le> length p" "c < 256" "(sum_bytes p + int c) mod 256 = 0"
  shows "ems_checksum_ok (p @ hex2 u c)"
  using checksum_ok_rendered[OF assms, of "[]" u] by simp

lemma sample_sum: "sum_bytes sample_payload = 5856"
  by (simp add: sample_payload_def sum_bytes_def)

text \<open>The sample payload with its checksum byte 0x20, rendered as \<open>20\<close>, is accepted.\<close>

theorem rendered_checksum_accepted_witness:
  "2 \<le> length sample_payload \<and> (32::nat) < 256 \<and> (sum_bytes sample_payload + int 32) mod 256 = 0
   \<and> ems_checksum_ok (sample_payload @ hex2 True 32)"
proof -
  have h1: "2 \<le> length sample_payload" by (simp add: sample_payload_def)
  have h2: "(32::nat) < 256" by simp
  have h3: "(sum_bytes sample_payload + int 32) mod 256 = 0" by (simp add: sample_sum)
  from rendered_checksum_accepted[OF h1 h2 h3] h1 h2 h3 show ?thesis by blast
qed

text \<open>
  C3. When the validator accepts a frame, replacing one payload byte (a position before the
  last two bytes of the stripped body) by any different byte, with the two checksum
  characters and the line ending left as they are, gives a frame that the validator
  rejects.
\<close>

theorem payload_change_rejected:
  assumes ok: "ems_checksum_ok raw" and j: "j < length (rstrip raw) - 2" and b: "b \<noteq> raw ! j"
  shows "\<not> ems_checksum_ok (raw[j := b])"
proof
  assume ok': "ems_checksum_ok (raw[j := b])"
  let ?body = "rstrip raw"
  obtain t where t: "raw = ?body @ t" "list_all is_crlf t"
    "?body = [] \<or> \<not> is_crlf (last ?body)"
    using rstrip_decompose by blast
  from j have ne: "?body \<noteq> []" and jl: "j < length ?body" and jn: "j \<noteq> length ?body - 1"
    by auto
  have upd: "raw[j := b] = ?body[j := b] @ t"
    using jl by (subst t(1)) (simp add: list_update_append)
  have "last (?body[j := b]) = last ?body"
    using ne jn by (simp add: last_list_update)
  then have "rstrip (?body[j := b] @ t) = ?body[j := b]"
    using t(2,3) ne by (intro rstrip_append) auto
  then have r': "rstrip (raw[j := b]) = ?body[j := b]" by (simp add: upd)
  have cf: "checksum_field (?body[j := b]) = checksum_field ?body"
    using j by (simp add: checksum_field_def)
  have jp: "j < length (payload_of ?body)" using j by (simp add: payload_of_def)
  have pl: "payload_of (?body[j := b]) = (payload_of ?body)[j := b]"
    by (simp add: payload_of_def take_update_swap)
  have rj: "raw ! j = payload_of ?body ! j"
    using jl j by (subst t(1)) (simp add: nth_append payload_of_def)
  from ok obtain hx v where v: "decode_ascii (checksum_field ?body) = Inr hx"
    "py_int 16 hx = Inr v" "(sum_bytes (payload_of ?body) + v) mod 256 = 0"
    unfolding checksum_ok_iff by auto
  from ok' have "(sum_bytes ((payload_of ?body)[j := b]) + v) mod 256 = 0"
    unfolding checksum_ok_iff r' cf pl using v(1,2) by auto
  then have "(sum_bytes (payload_of ?body) - int (of_char (raw ! j)) + int (of_char b) + v) mod 256 = 0"
    by (simp add: sum_bytes_update[OF jp] rj)
  with v(3) have "int (of_char (raw ! j)) = int (of_char b)"
    by (rule byte_diff_mod) simp_all
  then have "raw ! j = b" by simp
  with b show False by simp
qed

lemma sample_rstrip: "rstrip sample_frame = sample_payload @ ''20''"
  by (simp add: sample_frame_def sample_payload_def rstrip_def is_crlf_def)

text \<open>In the sample frame, the RPM field \<open>250\<close> changed to \<open>350\<close> is detected.\<close>

theorem payload_change_rejected_witness:
  "ems_checksum_ok sample_frame \<and> 27 < length (rstrip sample_frame) - 2
   \<and> CHR ''3'' \<noteq> sample_frame ! 27
   \<and> \<not> ems_checksum_ok (sample_frame[27 := CHR ''3''])"
proof -
  have h2: "27 < length (rstrip sample_frame) - 2"
    by (simp add: sample_rstrip) (simp add: sample_payload_def)
  have h3: "CHR ''3'' \<noteq> sample_frame ! 27"
    by (simp add: sample_frame_def sample_payload_def)
  from payload_change_rejected[OF sample_frame_ok h2 h3] sample_frame_ok h2 h3
  show ?thesis by blast
qed

text \<open>
  C4, counterexample. The claim says that a frame whose last two body characters are not a
  hexadecimal pair is rejected. In the four-byte frame \<open>~}+5\<close> the last two characters are
  \<open>+5\<close>, which \<^verbatim>\<open>int("+5", 16)\<close> converts to 5; the payload bytes 126 and 125 sum to
  251, the total is 256, and the validator accepts the frame.
\<close>

theorem lenient_checksum_field_accepted:
  "\<not> is_hex_pair (checksum_field (rstrip ''~}+5'')) \<and> ems_checksum_ok ''~}+5''"
  by (simp add: is_hex_pair_def checksum_field_def rstrip_def is_crlf_def is_hex_def
      ems_checksum_ok_def checksum_try_def decode_ascii_def py_int_def py_isspace_def
      py_digits16_one signed_def digit_value_def sum_bytes_def and_255)

lemma decode_ascii_cases: "decode_ascii bs = Inr hx \<Longrightarrow> hx = bs"
  by (simp add: decode_ascii_def split: if_splits)

text \<open>
  C4, amended. The validator returns a boolean for every byte sequence, an exception of the
  guarded block giving false. Every frame whose stripped body is shorter than four bytes is
  rejected, and every frame is rejected whose last two body characters are not a text that
  the conversion accepts: two hexadecimal digits, or one hexadecimal digit after a sign or
  a white space, or one hexadecimal digit before a white space.
\<close>

theorem malformed_frame_rejected:
  "(length (rstrip raw) < 4 \<longrightarrow> \<not> ems_checksum_ok raw)
   \<and> (\<not> accepted_pair (checksum_field (rstrip raw)) \<longrightarrow> \<not> ems_checksum_ok raw)
   \<and> (ems_checksum_ok raw \<longleftrightarrow> checksum_try raw = Inr True)"
proof (intro conjI impI)
  assume "length (rstrip raw) < 4"
  then show "\<not> ems_checksum_ok raw" by (simp add: checksum_ok_iff)
next
  assume na: "\<not> accepted_pair (checksum_field (rstrip raw))"
  show "\<not> ems_checksum_ok raw"
  proof
    assume "ems_checksum_ok raw"
    then obtain hx v where l: "4 \<le> length (rstrip raw)"
      and v: "decode_ascii (checksum_field (rstrip raw)) = Inr hx" "py_int 16 hx = Inr v"
      unfolding checksum_ok_iff by auto
    from v(1) have hx: "hx = checksum_field (rstrip raw)" by (rule decode_ascii_cases)
    from l have "length (checksum_field (rstrip raw)) = 2" by (simp add: checksum_field_def)
    then obtain a b where ab: "checksum_field (rstrip raw) = [a, b]"
      by (auto simp: length_Suc_conv numeral_2_eq_2)
    from v(2) hx ab have "py_int 16 [a, b] \<noteq> Inl ValueError" by simp
    with na ab show False by (simp add: py_int16_pair)
  qed
next
  show "ems_checksum_ok raw \<longleftrightarrow> checksum_try raw = Inr True"
    by (auto simp: ems_checksum_ok_def split: sum.splits)
qed

text \<open>The two-byte frame \<open>0Z\<close> is too short and ends in no convertible text.\<close>

theorem malformed_frame_rejected_witness:
  "length (rstrip ''0Z'') < 4 \<and> \<not> accepted_pair (checksum_field (rstrip ''0Z''))
   \<and> \<not> ems_checksum_ok ''0Z''"
proof -
  have r: "rstrip ''0Z'' = ''0Z''" by (simp add: rstrip_def is_crlf_def)
  have h1: "length (rstrip ''0Z'') < 4" by (simp add: r)
  have h2: "\<not> accepted_pair (checksum_field (rstrip ''0Z''))"
    by (simp add: r checksum_field_def accepted_pair_def is_hex_def py_isspace_def)
  from malformed_frame_rejected[of "''0Z''"] h1 h2 show ?thesis by blast
qed

text \<open>
  C10. The validator accepts a frame exactly when its stripped body holds at least four
  bytes, the last two decode as ASCII and are converted by \<^verbatim>\<open>int(v, 16)\<close> to a value,
  and the payload sum plus that value is 0 modulo 256. The length of the field table plays
  no part: for every length from four on there is an accepted body of that length.
\<close>

theorem checksum_ok_without_length_check:
  "(ems_checksum_ok raw \<longleftrightarrow>
      4 \<le> length (rstrip raw) \<and>
      (\<exists>hx v. decode_ascii (checksum_field (rstrip raw)) = Inr hx \<and> py_int 16 hx = Inr v \<and>
         (sum_bytes (payload_of (rstrip raw)) + v) mod 256 = 0))
   \<and> (4 \<le> n \<longrightarrow> (\<exists>body. length body = n \<and> rstrip body = body \<and> ems_checksum_ok body))"
proof (intro conjI impI)
  show "ems_checksum_ok raw \<longleftrightarrow>
      4 \<le> length (rstrip raw) \<and>
      (\<exists>hx v. decode_ascii (checksum_field (rstrip raw)) = Inr hx \<and> py_int 16 hx = Inr v \<and>
         (sum_bytes (payload_of (rstrip raw)) + v) mod 256 = 0)"
    by (rule checksum_ok_iff)
next
  assume n: "4 \<le> n"
  define p where "p = replicate (n - 2) (CHR ''0'')"
  define c where "c = nat ((- sum_bytes p) mod 256)"
  have c: "c < 256" by (simp add: c_def nat_less_iff)
  have "int c = (- sum_bytes p) mod 256" by (simp add: c_def)
  then have s: "(sum_bytes p + int c) mod 256 = 0" by (simp add: mod_add_right_eq)
  have lp: "2 \<le> length p" using n by (simp add: p_def)
  have "ems_checksum_ok (p @ hex2 True c @ [])"
    using lp c s by (rule checksum_ok_rendered) simp
  moreover have "rstrip (p @ hex2 True c @ []) = p @ hex2 True c"
    using c by (rule rstrip_rendered) simp
  moreover have "length (p @ hex2 True c) = n" using n by (simp add: p_def hex2_def)
  ultimately show "\<exists>body. length body = n \<and> rstrip body = body \<and> ems_checksum_ok body"
    by (intro exI[of _ "p @ hex2 True c"]) simp
qed

text \<open>An accepted body of four bytes exists.\<close>

theorem checksum_ok_without_length_check_witness:
  "(4::nat) \<le> 4 \<and> (\<exists>body. length body = 4 \<and> rstrip body = body \<and> ems_checksum_ok body)"
  using checksum_ok_without_length_check[of "[]" 4] by simp

section \<open>Properties of the frame decoder\<close>

subsection \<open>The decoder in closed form\<close>

lemma and_then_take_cur: "and_then (take_cur s n) f i = f (fld s i n) (i + n)"
  by (simp add: and_then_def take_cur_def fld_def)

lemma and_then_int_of:
  "and_then (int_of v) f i = (if converts v then f (int_val v) i else Inl ValueError)"
  by (auto simp: and_then_def int_of_def converts_def int_val_def split: sum.splits
      dest: py_int_exn)

lemma and_then_int_take:
  "and_then (int_take s n) f i =
     (if converts (fld s i n) then f (int_at s i n) (i + n) else Inl ValueError)"
  using and_then_int_of[where v = "fld s i n" and f = f and i = "i + n"]
  by (simp add: int_take_def and_then_def take_cur_def fld_def int_at_def)

lemma and_then_ret: "and_then (ret v) f i = f v i"
  by (simp add: and_then_def ret_def)

lemma and_then_assoc: "and_then (and_then m f) g = and_then m (\<lambda>v. and_then (f v) g)"
  by (auto simp add: and_then_def fun_eq_iff split: sum.splits)

lemma six: "(6::nat) = Suc (Suc (Suc (Suc (Suc (Suc 0)))))"
  by simp

lemma parse_try_layout:
  "parse_try s 0 =
     (if list_all (\<lambda>(off, n). converts (fld s off n)) int_fields
      then Inr (layout_dict s, 117) else Inl ValueError)"
  unfolding parse_try_def six int_take_list.simps
  apply (simp only: and_then_assoc and_then_ret and_then_take_cur and_then_int_take
      and_then_int_of)
  apply (simp add: int_fields_def layout_dict_def int_at_def ret_def Let_def
      del: add_2_eq_Suc add_2_eq_Suc')
  done

lemma parse_ems_line_layout:
  "parse_ems_line s =
     (if list_all (\<lambda>(off, n). converts (fld s off n)) int_fields
      then Some (layout_dict s) else None)"
  by (simp add: parse_ems_line_def parse_try_layout)

lemma frame_width: "frame_width = 117"
  by (simp add: frame_width_def field_widths_def)

lemma sample_fields:
  "list_all (\<lambda>(off, n). converts (fld sample_payload off n)) int_fields"
  by (simp add: int_fields_def sample_payload_def fld_def converts_def py_int_def py_isspace_def
      py_digits_def strip_radix_prefix_def digit_or_underscore_def digit_value_def signed_def)

lemma sample_decodes: "parse_ems_line sample_payload = Some (layout_dict sample_payload)"
  by (simp add: parse_ems_line_layout sample_fields)

subsection \<open>Texts that convert in base 10\<close>

lemma strip_radix_prefix10: "strip_radix_prefix 10 cs = cs"
  by (simp add: strip_radix_prefix_def split: list.splits)

subsection \<open>Consequences of a successful decoding\<close>

lemma converts_iff: "converts v \<longleftrightarrow> (\<exists>k. py_int 10 v = Inr k)"
  by (simp add: converts_def split: sum.splits)

lemma converts_int_val: "converts v \<Longrightarrow> py_int 10 v = Inr (int_val v)"
  by (simp add: converts_def int_val_def split: sum.splits)

lemma not_converts_Nil: "\<not> converts []"
  by (simp add: converts_def py_int_Nil)

subsection \<open>The form of the texts that convert\<close>

lemma digit_not_underscore: "is_digit c \<Longrightarrow> c \<noteq> CHR ''_''"
  using special_chars by auto

lemma double_underscore_digit:
  "c \<noteq> CHR ''_'' \<Longrightarrow> double_underscore (c # cs) = double_underscore cs"
  by (cases cs) (auto elim: double_underscore.elims)


lemma all_space_iff: "list_all py_isspace cs \<longleftrightarrow> dropWhile py_isspace cs = []"
  by (simp add: list_all_iff)

lemma after_digit_iff:
  "after_digit cs \<longleftrightarrow>
     (takeWhile (digit_or_underscore 10) cs = []
        \<or> last (takeWhile (digit_or_underscore 10) cs) \<noteq> CHR ''_'')
     \<and> \<not> double_underscore (takeWhile (digit_or_underscore 10) cs)
     \<and> dropWhile py_isspace (dropWhile (digit_or_underscore 10) cs) = []"
proof (induction cs rule: after_digit.induct)
  case 1
  show ?case by simp
next
  case (2 c cs)
  show ?case
  proof (cases "is_digit c")
    case True
    then have u: "c \<noteq> CHR ''_''" by (rule digit_not_underscore)
    from True have p: "digit_or_underscore 10 c" by (simp add: dou10)
    from 2(1)[OF True] True u p show ?thesis
      by (simp add: double_underscore_digit)
  next
    case nd: False
    show ?thesis
    proof (cases "c = CHR ''_''")
      case True
      show ?thesis
      proof (cases cs)
        case Nil
        with True nd show ?thesis by (simp add: dou10)
      next
        case (Cons d ds)
        show ?thesis
        proof (cases "is_digit d")
          case dd: True
          then have u: "d \<noteq> CHR ''_''" by (rule digit_not_underscore)
          from 2(2)[OF nd True Cons] nd True Cons dd u show ?thesis
            by (simp add: dou10 double_underscore_digit)
        next
          case False
          with nd True Cons show ?thesis
            by (cases "d = CHR ''_''") (simp_all add: dou10)
        qed
      qed
    next
      case False
      with nd have np: "\<not> digit_or_underscore 10 c" by (simp add: dou10)
      with nd False show ?thesis by (simp add: all_space_iff)
    qed
  qed
qed

lemma py_digits10_iff: "(\<exists>n. py_digits 10 v = Inr n) \<longleftrightarrow> unsigned_numeral v"
proof (cases v)
  case Nil
  then show ?thesis by (simp add: py_digits_Nil unsigned_numeral_def)
next
  case (Cons c cs)
  show ?thesis
  proof (cases "is_digit c")
    case True
    then have u: "c \<noteq> CHR ''_''" by (rule digit_not_underscore)
    from True have p: "digit_or_underscore 10 c" by (simp add: dou10)
    from Cons True u p show ?thesis
      by (simp add: py_digits_def strip_radix_prefix10 unsigned_numeral_def after_digit_iff
          double_underscore_digit)
  next
    case False
    with Cons show ?thesis
      by (cases "c = CHR ''_''")
        (simp_all add: py_digits_def strip_radix_prefix10 unsigned_numeral_def dou10)
  qed
qed

lemma signed_Inr_iff: "(\<exists>k. signed neg r = Inr k) \<longleftrightarrow> (\<exists>n. r = Inr n)"
  by (cases r) (simp_all add: signed_def)

lemma converts_iff_int_text: "converts v \<longleftrightarrow> int_text v"
proof -
  have "converts v \<longleftrightarrow> (\<exists>k. py_int 10 v = Inr k)" by (rule converts_iff)
  also have "\<dots> \<longleftrightarrow> int_text v"
  proof (cases "dropWhile py_isspace v")
    case Nil
    then show ?thesis
      by (simp add: py_int_def int_text_def py_digits_Nil signed_def
          del: dropWhile_eq_Nil_conv)
  next
    case (Cons c cs)
    then show ?thesis
      by (simp add: py_int_def int_text_def signed_Inr_iff py_digits10_iff)
  qed
  finally show ?thesis .
qed

lemma decodes_iff_numerals:
  "parse_ems_line s \<noteq> None \<longleftrightarrow> list_all (\<lambda>(off, n). int_text (fld s off n)) int_fields"
  by (simp add: parse_ems_line_layout converts_iff_int_text)

lemma misplaced_characters_rejected:
  "list_all (\<lambda>v. \<not> int_text v)
     [''4-5'', ''45-'', ''4+5'', ''4 5'', ''_45'', ''45_'', ''+-5'', ''- 5'', ''4__5'', ''+ 5'']"
  by (simp add: int_text_def unsigned_numeral_def py_isspace_def is_digit_def)

subsection \<open>Slices of a decoded frame\<close>

lemma decoded_fields_convert:
  assumes "parse_ems_line s = Some d" "(off, n) \<in> set int_fields"
  shows "converts (fld s off n)"
proof -
  from assms(1) have "list_all (\<lambda>(off, n). converts (fld s off n)) int_fields"
    by (simp add: parse_ems_line_layout split: if_splits)
  with assms(2) show ?thesis by (auto simp: list_all_iff)
qed

lemma decoded_dict:
  assumes "parse_ems_line s = Some d"
  shows "d = layout_dict s"
  using assms by (simp add: parse_ems_line_layout split: if_splits)

lemma decoded_length:
  assumes "parse_ems_line s = Some d"
  shows "115 \<le> length s"
proof (rule ccontr)
  assume "\<not> 115 \<le> length s"
  then have "fld s 114 1 = []" by (simp add: fld_def)
  moreover have "converts (fld s 114 1)"
    using assms by (rule decoded_fields_convert) (simp add: int_fields_def)
  ultimately show False by (simp add: not_converts_Nil)
qed

lemma fld_take115: "off + n \<le> 115 \<Longrightarrow> fld (take 115 s) off n = fld s off n"
  by (simp add: fld_def drop_take min_def)

lemma parse_take115: "parse_ems_line (take 115 s) = parse_ems_line s"
  by (simp add: parse_ems_line_layout int_fields_def layout_dict_def int_at_def fld_take115)

lemma complete_layout_dict: "complete_record (layout_dict s)"
  by (auto simp: complete_record_def layout_dict_def float_keys_def int_keys_def list_keys_def)

lemma py_int10_minus_two:
  assumes "is_digit a" "is_digit b"
  shows "py_int 10 [CHR ''-'', a, b] = Inr (- int (10 * digit_value a + digit_value b))"
proof -
  from assms have u: "a \<noteq> CHR ''_''" "b \<noteq> CHR ''_''" using special_chars by auto
  with assms have "py_digits 10 [a, b] = Inr (10 * digit_value a + digit_value b)"
    by (simp add: py_digits_def strip_radix_prefix10 dou10 digits_value_def)
  then show ?thesis
    using special_chars by (simp add: py_int_def signed_def)
qed

section \<open>Claims about the frame decoder\<close>

text \<open>
  C2. For every input string the decoder either fails, the guarded block having raised
  \<^verbatim>\<open>ValueError\<close> and the result being the single failure signal, or it returns a
  complete record: a dictionary with exactly the fifteen keys, a float at each of the seven
  float keys, an integer at each of the six integer keys and a list of six integers at each
  of the two list keys. The guarded block runs to the cursor 117 or raises; nothing escapes.
\<close>

theorem decode_all_or_nothing:
  "(parse_try s 0 = Inl ValueError \<and> parse_ems_line s = None)
   \<or> (\<exists>d. parse_try s 0 = Inr (d, 117) \<and> parse_ems_line s = Some d \<and> complete_record d)"
  by (simp add: parse_try_layout parse_ems_line_layout complete_layout_dict)

text \<open>The sample payload decodes to a complete record.\<close>

theorem decode_all_or_nothing_witness:
  "\<exists>d. parse_try sample_payload 0 = Inr (d, 117) \<and> parse_ems_line sample_payload = Some d
       \<and> complete_record d"
  using decode_all_or_nothing[of sample_payload] sample_decodes by simp

lemma plus_fields:
  "list_all (\<lambda>(off, n). converts (fld plus_payload off n)) int_fields"
  by (simp add: int_fields_def plus_payload_def fld_def converts_def py_int_def
      py_isspace_def py_digits_def strip_radix_prefix_def digit_or_underscore_def
      digit_value_def signed_def)

text \<open>
  C5, counterexample. The oil pressure field, at offset 15 and three characters wide, is
  unsigned. With the text \<open>+45\<close> in it, whose first character is no digit, the frame
  decodes, and its oil pressure is 45.
\<close>

theorem plus_sign_in_field_decodes:
  "(15, 3) \<in> set int_fields \<and> fld plus_payload 15 3 = ''+45''
   \<and> \<not> list_all is_digit ''+45''
   \<and> map_option (\<lambda>d. d ''oil_psi'') (parse_ems_line plus_payload) = Some (Some (PyInt 45))"
proof -
  have f: "fld plus_payload 15 3 = ''+45''"
    by (simp add: fld_def plus_payload_def)
  have "int_at plus_payload 15 3 = 45"
    by (simp add: int_at_def f int_val_def py_int_def py_isspace_def py_digits_def
        strip_radix_prefix_def digit_or_underscore_def digit_value_def digits_value_def
        signed_def)
  then have v: "layout_dict plus_payload ''oil_psi'' = Some (PyInt 45)"
    by (simp add: layout_dict_def)
  have p: "parse_ems_line plus_payload = Some (layout_dict plus_payload)"
    by (simp add: parse_ems_line_layout plus_fields)
  have m: "(15, 3) \<in> set int_fields" by (simp add: int_fields_def)
  have n: "\<not> list_all is_digit ''+45''" by (simp add: is_digit_def)
  from f v p m n show ?thesis by simp
qed

text \<open>
  C5, amended. For every ASCII frame in which the slice of some numeric field is not a
  numeral of the form that the conversion reads (optional leading white space, at most one
  sign \<open>+\<close> or \<open>-\<close> directly before the first digit, decimal digits with single
  underscores only between two digits, optional trailing white space), decoding fails
  entirely: the failure signal is returned and no record. So a non-digit character fails
  the frame unless it is such a leading sign, a surrounding white space or an underscore
  between two digits.
\<close>

theorem malformed_numeral_fails:
  assumes "ascii_text s" "(off, n) \<in> set int_fields" "\<not> int_text (fld s off n)"
  shows "parse_ems_line s = None"
proof (rule ccontr)
  assume "parse_ems_line s \<noteq> None"
  then have "list_all (\<lambda>(off, n). int_text (fld s off n)) int_fields"
    by (simp only: decodes_iff_numerals)
  with assms(2) have "int_text (fld s off n)" by (auto simp: list_all_iff)
  with assms(3) show False by simp
qed

text \<open>
  The sample payload with the oil pressure field \<open>0-5\<close>, a sign after a digit, does not
  decode.
\<close>

theorem malformed_numeral_fails_witness:
  "ascii_text (sample_payload[16 := CHR ''-'']) \<and> (15, 3) \<in> set int_fields
   \<and> fld (sample_payload[16 := CHR ''-'']) 15 3 = ''0-5''
   \<and> \<not> int_text (fld (sample_payload[16 := CHR ''-'']) 15 3)
   \<and> parse_ems_line (sample_payload[16 := CHR ''-'']) = None"
proof -
  have h1: "ascii_text (sample_payload[16 := CHR ''-''])"
    by (simp add: ascii_text_def sample_payload_def)
  have h2: "(15, 3) \<in> set int_fields" by (simp add: int_fields_def)
  have f: "fld (sample_payload[16 := CHR ''-'']) 15 3 = ''0-5''"
    by (simp add: fld_def sample_payload_def)
  have h3: "\<not> int_text (fld (sample_payload[16 := CHR ''-'']) 15 3)"
    by (simp add: f int_text_def unsigned_numeral_def py_isspace_def is_digit_def)
  from malformed_numeral_fails[OF h1 h2 h3] h1 h2 f h3 show ?thesis by blast
qed

text \<open>
  C6, counterexample. The first 115 characters of the sample payload are shorter than the
  field table, which is 117 characters wide; the product ID is missing. The decoder returns
  the record of the whole payload for them, not the failure signal.
\<close>

theorem missing_product_id_decodes:
  "length (take 115 sample_payload) < frame_width
   \<and> parse_ems_line (take 115 sample_payload) = Some (layout_dict sample_payload)"
  by (simp add: parse_take115 sample_decodes frame_width)

text \<open>
  C6, amended. For every input shorter than 115 characters, the extent of the fields that
  the decoder converts, the decoder returns the failure signal: the guarded block raises
  \<^verbatim>\<open>ValueError\<close>, which is caught. Nothing is said here of an input of 115 or 116
  characters, which lacks only the product ID.
\<close>

theorem truncated_input_fails:
  assumes "length s < 115"
  shows "parse_ems_line s = None \<and> parse_try s 0 = Inl ValueError"
proof -
  have "parse_ems_line s = None"
  proof (rule ccontr)
    assume "parse_ems_line s \<noteq> None"
    then obtain d where "parse_ems_line s = Some d" by auto
    then have "115 \<le> length s" by (rule decoded_length)
    with assms show False by simp
  qed
  then show ?thesis
    by (simp add: parse_ems_line_layout parse_try_layout split: if_splits)
qed

text \<open>The first 60 characters of the sample payload do not decode.\<close>

theorem truncated_input_fails_witness:
  "length (take 60 sample_payload) < 115
   \<and> parse_ems_line (take 60 sample_payload) = None
   \<and> parse_try (take 60 sample_payload) 0 = Inl ValueError"
proof -
  have h: "length (take 60 sample_payload) < 115" by simp
  from truncated_input_fails[OF h] h show ?thesis by blast
qed

text \<open>
  C7. For every successfully decoded frame the RPM slice, at offset 27, holds three
  characters and converts to an integer, and the \<open>rpm\<close> entry of the record is ten times
  that integer, hence a multiple of 10. When the slice is \<open>250\<close> the entry is 2500.
\<close>

theorem rpm_ten_times_raw:
  assumes "parse_ems_line s = Some d"
  shows "(\<exists>v. length (fld s 27 3) = 3 \<and> py_int 10 (fld s 27 3) = Inr v
            \<and> d ''rpm'' = Some (PyInt (v * 10)) \<and> (v * 10) mod 10 = 0)
         \<and> (fld s 27 3 = ''250'' \<longrightarrow> d ''rpm'' = Some (PyInt 2500))"
proof -
  from assms have d: "d = layout_dict s" by (rule decoded_dict)
  from assms have "115 \<le> length s" by (rule decoded_length)
  then have l: "length (fld s 27 3) = 3" by (simp add: fld_def)
  have "converts (fld s 27 3)"
    using assms by (rule decoded_fields_convert) (simp add: int_fields_def)
  then have v: "py_int 10 (fld s 27 3) = Inr (int_at s 27 3)"
    by (simp add: int_at_def converts_int_val)
  have r: "d ''rpm'' = Some (PyInt (int_at s 27 3 * 10))"
    by (simp add: d layout_dict_def)
  have "py_int 10 ''250'' = Inr 250"
    by (simp add: py_int_def py_isspace_def py_digits_def strip_radix_prefix_def
        digit_or_underscore_def digit_value_def digits_value_def signed_def)
  with v have "fld s 27 3 = ''250'' \<longrightarrow> int_at s 27 3 = 250" by auto
  with l v r show ?thesis by auto
qed

text \<open>The sample payload has the RPM slice \<open>250\<close> and decodes to 2500.\<close>

theorem rpm_ten_times_raw_witness:
  "parse_ems_line sample_payload = Some (layout_dict sample_payload)
   \<and> fld sample_payload 27 3 = ''250''
   \<and> layout_dict sample_payload ''rpm'' = Some (PyInt 2500)"
proof -
  have f: "fld sample_payload 27 3 = ''250''" by (simp add: fld_def sample_payload_def)
  from rpm_ten_times_raw[OF sample_decodes] f sample_decodes show ?thesis by blast
qed

text \<open>
  C8. For every successfully decoded frame the oil temperature slice, at offset 12, holds
  three characters, and the \<open>oil_temp_f\<close> entry is the signed integer it converts to. A
  leading minus takes one of the three positions: a minus and two digits decode to the
  negated two-digit number, and the slice \<open>-05\<close> decodes to -5.
\<close>

theorem oil_temperature_signed:
  assumes "parse_ems_line s = Some d"
  shows "(\<exists>v. length (fld s 12 3) = 3 \<and> py_int 10 (fld s 12 3) = Inr v
            \<and> d ''oil_temp_f'' = Some (PyInt v))
         \<and> (\<forall>a b. fld s 12 3 = [CHR ''-'', a, b] \<and> is_digit a \<and> is_digit b \<longrightarrow>
               d ''oil_temp_f'' = Some (PyInt (- int (10 * digit_value a + digit_value b))))
         \<and> (fld s 12 3 = ''-05'' \<longrightarrow> d ''oil_temp_f'' = Some (PyInt (- 5)))"
proof -
  from assms have d: "d = layout_dict s" by (rule decoded_dict)
  from assms have "115 \<le> length s" by (rule decoded_length)
  then have l: "length (fld s 12 3) = 3" by (simp add: fld_def)
  have "converts (fld s 12 3)"
    using assms by (rule decoded_fields_convert) (simp add: int_fields_def)
  then have v: "py_int 10 (fld s 12 3) = Inr (int_at s 12 3)"
    by (simp add: int_at_def converts_int_val)
  have r: "d ''oil_temp_f'' = Some (PyInt (int_at s 12 3))"
    by (simp add: d layout_dict_def)
  have g: "int_at s 12 3 = - int (10 * digit_value a + digit_value b)"
    if "fld s 12 3 = [CHR ''-'', a, b]" "is_digit a" "is_digit b" for a b
    using v py_int10_minus_two[OF that(2,3)] that(1) by simp
  have "is_digit (CHR ''0'')" "is_digit (CHR ''5'')"
    "digit_value (CHR ''0'') = 0" "digit_value (CHR ''5'') = 5"
    by (simp_all add: is_digit_def digit_value_def)
  with g[of "CHR ''0''" "CHR ''5''"] have "fld s 12 3 = ''-05'' \<longrightarrow> int_at s 12 3 = - 5"
    by simp
  with l v r g show ?thesis by auto
qed

text \<open>The sample payload has the oil temperature slice \<open>-05\<close> and decodes to -5.\<close>

theorem oil_temperature_signed_witness:
  "parse_ems_line sample_payload = Some (layout_dict sample_payload)
   \<and> fld sample_payload 12 3 = ''-05''
   \<and> layout_dict sample_payload ''oil_temp_f'' = Some (PyInt (- 5))"
proof -
  have f: "fld sample_payload 12 3 = ''-05''" by (simp add: fld_def sample_payload_def)
  from oil_temperature_signed[OF sample_decodes] f sample_decodes show ?thesis by blast
qed

text \<open>
  C9. The decoder does not examine the product ID or the checksum positions. Two inputs
  that agree on their first 115 characters decode to the same result, record or failure;
  an input cut to its first 115 characters decodes as the whole input does, so that, when
  the whole input decodes, the first 115 characters alone decode to a complete record.
\<close>

theorem decoder_reads_first_115:
  "(take 115 s = take 115 t \<longrightarrow> parse_ems_line s = parse_ems_line t)
   \<and> parse_ems_line (take 115 s) = parse_ems_line s
   \<and> (parse_ems_line s \<noteq> None \<longrightarrow>
        (\<exists>d. parse_ems_line (take 115 s) = Some d \<and> complete_record d))"
proof (intro conjI impI)
  assume "take 115 s = take 115 t"
  then have "parse_ems_line (take 115 s) = parse_ems_line (take 115 t)" by simp
  then show "parse_ems_line s = parse_ems_line t" by (simp only: parse_take115)
next
  show "parse_ems_line (take 115 s) = parse_ems_line s" by (rule parse_take115)
next
  assume "parse_ems_line s \<noteq> None"
  then obtain d where d: "parse_ems_line s = Some d" by auto
  then have "d = layout_dict s" by (rule decoded_dict)
  then have "complete_record d" by (simp add: complete_layout_dict)
  with d show "\<exists>d. parse_ems_line (take 115 s) = Some d \<and> complete_record d"
    by (simp add: parse_take115)
qed

text \<open>
  The sample payload and its first 115 characters followed by \<open>ZZ??\<close> decode alike, and
  the first 115 characters alone give a complete record.
\<close>

theorem decoder_reads_first_115_witness:
  "take 115 sample_payload = take 115 (take 115 sample_payload @ ''ZZ??'')
   \<and> parse_ems_line sample_payload \<noteq> None
   \<and> parse_ems_line sample_payload = parse_ems_line (take 115 sample_payload @ ''ZZ??'')
   \<and> (\<exists>d. parse_ems_line (take 115 sample_payload) = Some d \<and> complete_record d)"
proof -
  have h1: "take 115 sample_payload = take 115 (take 115 sample_payload @ ''ZZ??'')"
    by (simp add: sample_payload_def)
  have h2: "parse_ems_line sample_payload \<noteq> None" by (simp add: sample_decodes)
  from decoder_reads_first_115[of sample_payload "take 115 sample_payload @ ''ZZ??''"] h1 h2
  show ?thesis by blast
qed

end
